theory Spec2Isabelle
  imports Main "HOL-Library.AList"
begin

section \<open>JavaScript values\<close>

text \<open>
  The registries are typed \<open>any\<close> throughout, so the values they hold and the values a test
  body throws are modelled as JavaScript values. Numbers are the integer-valued ones plus
  \<open>NaN\<close>; an object or a function carries an identity and its own data properties.
  \<open>JTypeError\<close> is the error object the engine itself creates when a property of
  \<open>undefined\<close> or \<open>null\<close> is read.
\<close>

datatype jsval =
    JUndefined
  | JNull
  | JBool bool
  | JNum int
  | JNaN
  | JStr string
  | JObj nat "(string \<times> jsval) list"
  | JFun nat "(string \<times> jsval) list"
  | JTypeError string

text \<open>What \<open>if (v)\<close>, \<open>!!v\<close> and \<open>v && w\<close> test.\<close>

fun truthy :: "jsval \<Rightarrow> bool" where
  "truthy JUndefined = False"
| "truthy JNull = False"
| "truthy (JBool b) = b"
| "truthy (JNum n) = (n \<noteq> 0)"
| "truthy JNaN = False"
| "truthy (JStr s) = (s \<noteq> [])"
| "truthy (JObj r ps) = True"
| "truthy (JFun r ps) = True"
| "truthy (JTypeError m) = True"

fun nullish :: "jsval \<Rightarrow> bool" where
  "nullish JUndefined = True"
| "nullish JNull = True"
| "nullish v = False"

text \<open>
  \<open>v.k\<close> for the property names the shim reads (\<open>message\<close>, \<open>_isMockFunction\<close>,
  \<open>mockClear\<close>, \<open>mockReset\<close>, \<open>mockRestore\<close>, \<open>restore\<close>, \<open>__esModule\<close>,
  \<open>default\<close>): reading from \<open>undefined\<close> or \<open>null\<close> throws a TypeError, a primitive
  has none of them, an object has what it carries.
\<close>

fun getProp :: "jsval \<Rightarrow> string \<Rightarrow> jsval + jsval" where
  "getProp JUndefined k = Inl (JTypeError (''Cannot read properties of undefined (reading '' @ k @ '')''))"
| "getProp JNull k = Inl (JTypeError (''Cannot read properties of null (reading '' @ k @ '')''))"
| "getProp (JObj r ps) k = Inr (case map_of ps k of None \<Rightarrow> JUndefined | Some v \<Rightarrow> v)"
| "getProp (JFun r ps) k = Inr (case map_of ps k of None \<Rightarrow> JUndefined | Some v \<Rightarrow> v)"
| "getProp (JTypeError m) k = Inr (if k = ''message'' then JStr m else JUndefined)"
| "getProp v k = Inr JUndefined"

text \<open>\<open>typeof v === 'function'\<close>.\<close>

fun isFunction :: "jsval \<Rightarrow> bool" where
  "isFunction (JFun r ps) = True"
| "isFunction v = False"

section \<open>The central registry (registry.ts)\<close>

record describeBlock =
  blockName :: string
  retryCount :: int

record spyInfo =
  object :: jsval
  methodName :: string
  original :: jsval
  accessType :: "string option"

type_synonym options = "(string \<times> jsval) list"

text \<open>
  What the shim does to the outside world, in order: console output, calls of methods that
  the mock library and the host runner own, and registrations with the host runner.
\<close>

datatype event =
    ConsoleLog string nat jsval
  | ConsoleError string jsval
  | MethodCall string jsval
  | HostMockModule string jsval jsval
  | NodeTest string options bool
  | NodeDescribe string options bool
  | SuiteFailed string jsval
  | NodeHook string

text \<open>
  The module-level variables of registry.ts, in their order of declaration. A \<open>Set\<close> is a
  list without repetition in insertion order, a \<open>Map\<close> an association list in insertion
  order. \<open>trace\<close> records the events above and \<open>user\<close> is the test file's own state
  (the variables its callbacks close over).
\<close>

record 'u session =
  createdMocks :: "jsval list"
  spiedFunctions :: "(jsval \<times> spyInfo) list"
  mockedModules :: "(string \<times> jsval) list"
  moduleCache :: "(string \<times> jsval) list"
  currentTestContext :: jsval
  currentRetryCount :: int
  describeStack :: "describeBlock list"
  onlyMode :: bool
  trace :: "event list"
  user :: 'u

definition initial :: "'u \<Rightarrow> 'u session" where
  "initial u = \<lparr> createdMocks = [], spiedFunctions = [], mockedModules = [], moduleCache = [],
     currentTestContext = JNull, currentRetryCount = 0, describeStack = [], onlyMode = False,
     trace = [], user = u \<rparr>"

text \<open>
  A JavaScript callback run on a session: it returns a value (\<open>Inr\<close>) or throws one
  (\<open>Inl\<close>), and leaves the session as it changed it. A rejected promise of an awaited
  callback is a throw.
\<close>

type_synonym 'u action = "'u session \<Rightarrow> (jsval + jsval) \<times> 'u session"

definition emit :: "event \<Rightarrow> 'u session \<Rightarrow> 'u session" where
  "emit e s = s\<lparr>trace := trace s @ [e]\<rparr>"

subsection \<open>retryRegistry\<close>

definition setGlobalRetryCount :: "int \<Rightarrow> 'u session \<Rightarrow> 'u session" where
  "setGlobalRetryCount count s =
     (let s1 = s\<lparr>currentRetryCount := count\<rparr>;
          st = describeStack s1
      in if length st > 0
         then s1\<lparr>describeStack := st[length st - 1 := (st ! (length st - 1))\<lparr>retryCount := count\<rparr>]\<rparr>
         else s1)"

definition getCurrentRetryCount :: "'u session \<Rightarrow> int" where
  "getCurrentRetryCount s =
     (let st = describeStack s
      in if length st > 0 then retryCount (st ! (length st - 1)) else currentRetryCount s)"

definition pushDescribeBlock :: "string \<Rightarrow> 'u session \<Rightarrow> 'u session" where
  "pushDescribeBlock nm s =
     (let inheritedRetryCount = getCurrentRetryCount s
      in s\<lparr>describeStack := describeStack s @ [\<lparr>blockName = nm, retryCount = inheritedRetryCount\<rparr>]\<rparr>)"

text \<open>\<open>Array.prototype.pop\<close> on an empty array removes nothing and does not throw.\<close>

definition popDescribeBlock :: "'u session \<Rightarrow> 'u session" where
  "popDescribeBlock s = s\<lparr>describeStack := butlast (describeStack s)\<rparr>"

subsection \<open>filterRegistry and testContextRegistry\<close>

definition setOnlyMode :: "bool \<Rightarrow> 'u session \<Rightarrow> 'u session" where
  "setOnlyMode enabled s = s\<lparr>onlyMode := enabled\<rparr>"

definition isOnlyMode :: "'u session \<Rightarrow> bool" where
  "isOnlyMode s = onlyMode s"

definition setCurrentTestContext :: "jsval \<Rightarrow> 'u session \<Rightarrow> 'u session" where
  "setCurrentTestContext ctx s = s\<lparr>currentTestContext := ctx\<rparr>"

definition getCurrentTestContext :: "'u session \<Rightarrow> jsval" where
  "getCurrentTestContext s = currentTestContext s"

section \<open>The describe function (testFunctions.ts)\<close>

text \<open>
  The wrapper that \<open>createDescribeFunction\<close> hands to the host runner in place of the suite
  body: push, run the body, pop. The three statements are in sequence, so a body that
  throws leaves the wrapper before the pop.
\<close>

definition describe_wrappedFn :: "string \<Rightarrow> 'u action \<Rightarrow> 'u action" where
  "describe_wrappedFn nm fn s =
     (case fn (pushDescribeBlock nm s) of
        (Inl e, s') \<Rightarrow> (Inl e, s')
      | (Inr v, s') \<Rightarrow> (Inr JUndefined, popDescribeBlock s'))"

section \<open>The retry loop (testFunctions.ts, testRetries.ts)\<close>

text \<open>
  \<open>handleRetries\<close> and the wrapper built by \<open>withRetries\<close> run the same loop, statement for
  statement: while \<open>attempt <= retryCount\<close>, await the body; return on success; on a throw
  store the error, log the retry when \<open>attempt < retryCount\<close>, and count the attempt. After
  the loop, \<open>if (lastError) throw lastError\<close>. The log line interpolates
  \<open>error.message\<close> inside the \<open>catch\<close> block, so a TypeError raised by that read leaves
  the function. The body receives the test context \<open>t\<close>.
\<close>

function retryLoop ::
  "(jsval \<Rightarrow> 'u action) \<Rightarrow> jsval \<Rightarrow> int \<Rightarrow> string \<Rightarrow> nat \<Rightarrow> jsval \<Rightarrow> 'u action" where
  "retryLoop fn t retries testName attempt lastError s =
     (if int attempt \<le> retries then
        (case fn t s of
           (Inr v, s1) \<Rightarrow> (Inr JUndefined, s1)
         | (Inl error, s1) \<Rightarrow>
             (if int attempt < retries then
                (case getProp error ''message'' of
                   Inl typeError \<Rightarrow> (Inl typeError, s1)
                 | Inr msg \<Rightarrow>
                     retryLoop fn t retries testName (Suc attempt) error
                       (emit (ConsoleLog testName (attempt + 1) msg) s1))
              else retryLoop fn t retries testName (Suc attempt) error s1))
      else if truthy lastError then (Inl lastError, s)
      else (Inr JUndefined, s))"
  by pat_completeness auto
termination
  by (relation "measure (\<lambda>(fn, t, retries, testName, attempt, lastError, s).
        nat (retries + 1 - int attempt))") auto

declare retryLoop.simps [simp del]

definition handleRetries ::
  "jsval \<Rightarrow> (jsval \<Rightarrow> 'u action) \<Rightarrow> int \<Rightarrow> string \<Rightarrow> 'u action" where
  "handleRetries t fn retries testName = retryLoop fn t retries testName 0 JUndefined"

section \<open>The test function (testFunctions.ts)\<close>

text \<open>A positional argument that the entry points inspect with \<open>typeof\<close>.\<close>

datatype 'f jsarg = AFun 'f | AObj options | ANum int | AUndefined

text \<open>
  The wrapper that \<open>createTestFunction\<close> hands to the host runner in place of the test body.
  The host calls it with the test context when it runs the test: it publishes the context,
  reads the retry count from the registry, and runs the body under \<open>handleRetries\<close> when the
  count is positive, directly otherwise.
\<close>

definition test_wrappedFn :: "string \<Rightarrow> (jsval \<Rightarrow> 'u action) \<Rightarrow> jsval \<Rightarrow> 'u action" where
  "test_wrappedFn nm fn t s =
     (let s1 = setCurrentTestContext t s;
          retries = getCurrentRetryCount s1
      in if retries > 0 then handleRetries t fn retries nm s1 else fn t s1)"

text \<open>
  The host runner's \<open>test(name, options, fn)\<close> is outside the repository: it registers the
  test, which the trace records, and runs the function later.
\<close>

definition nodeTest :: "string \<Rightarrow> options \<Rightarrow> (jsval \<Rightarrow> 'u action) option \<Rightarrow> 'u action" where
  "nodeTest nm opts wrappedFn s = (Inr JUndefined, emit (NodeTest nm opts (wrappedFn \<noteq> None)) s)"

definition testFunction ::
  "string \<Rightarrow> (jsval \<Rightarrow> 'u action) jsarg \<Rightarrow> (jsval \<Rightarrow> 'u action) jsarg \<Rightarrow> 'u action" where
  "testFunction nm fnOrOptions maybeTimeout s =
     (let (fn, opts) =
            (case fnOrOptions of
               AFun f \<Rightarrow>
                 (Some f, (case maybeTimeout of ANum n \<Rightarrow> [(''timeout'', JNum n)] | _ \<Rightarrow> []))
             | AObj ob \<Rightarrow> ((case maybeTimeout of AFun f \<Rightarrow> Some f | _ \<Rightarrow> None), ob)
             | _ \<Rightarrow> (None, []));
          wrappedFn = map_option (test_wrappedFn nm) fn
      in nodeTest nm opts wrappedFn s)"

definition test_only ::
  "string \<Rightarrow> (jsval \<Rightarrow> 'u action) option \<Rightarrow> int option \<Rightarrow> 'u action" where
  "test_only nm fn timeout s =
     (let opts = [(''only'', JBool True)] @
                 (case timeout of Some n \<Rightarrow> [(''timeout'', JNum n)] | None \<Rightarrow> []);
          s1 = setOnlyMode True s
      in testFunction nm (AObj opts) (case fn of Some f \<Rightarrow> AFun f | None \<Rightarrow> AUndefined) s1)"

definition test_skip :: "string \<Rightarrow> (jsval \<Rightarrow> 'u action) option \<Rightarrow> 'u action" where
  "test_skip nm fn s =
     testFunction nm (AObj [(''skip'', JBool True)])
       (case fn of Some f \<Rightarrow> AFun f | None \<Rightarrow> AUndefined) s"

definition test_todo :: "string \<Rightarrow> 'u action" where
  "test_todo nm s = testFunction nm (AObj [(''todo'', JBool True)]) AUndefined s"

definition retryTimes :: "int \<Rightarrow> 'u action" where
  "retryTimes count s = (Inr JUndefined, setGlobalRetryCount count s)"

text \<open>The lifecycle hooks forward to the host and touch no registry.\<close>

definition hook :: "string \<Rightarrow> 'u action" where
  "hook kind s = (Inr JUndefined, emit (NodeHook kind) s)"

section \<open>The describe entry points (testFunctions.ts)\<close>

text \<open>
  The host runner's \<open>describe(name, options, fn)\<close> is outside the repository. What matters
  to the registry is whether it calls the function it is given while the suite is being
  registered, and whether an exception of that function comes back to the caller of
  \<open>describe\<close> or is kept by the host as the suite's failure. Both are left open.
\<close>

record host =
  suiteRuns :: "options \<Rightarrow> bool"
  suiteCatches :: bool

definition nodeDescribe :: "host \<Rightarrow> string \<Rightarrow> options \<Rightarrow> 'u action option \<Rightarrow> 'u action" where
  "nodeDescribe h nm opts wrappedFn s =
     (let s1 = emit (NodeDescribe nm opts (wrappedFn \<noteq> None)) s
      in case wrappedFn of
           None \<Rightarrow> (Inr JUndefined, s1)
         | Some w \<Rightarrow>
             (if suiteRuns h opts then
                (case w s1 of
                   (Inl e, s2) \<Rightarrow>
                     (if suiteCatches h then (Inr JUndefined, emit (SuiteFailed nm e) s2)
                      else (Inl e, s2))
                 | (Inr v, s2) \<Rightarrow> (Inr JUndefined, s2))
              else (Inr JUndefined, s1)))"

definition describeFunction ::
  "host \<Rightarrow> string \<Rightarrow> ('u action) jsarg \<Rightarrow> 'u action option \<Rightarrow> 'u action" where
  "describeFunction h nm fnOrOptions fn s =
     (let (fn1, opts) =
            (case fnOrOptions of
               AFun f \<Rightarrow> (Some f, [])
             | AObj ob \<Rightarrow> (fn, ob)
             | _ \<Rightarrow> (fn, []));
          wrappedFn = map_option (describe_wrappedFn nm) fn1
      in nodeDescribe h nm opts wrappedFn s)"

definition describe_only :: "host \<Rightarrow> string \<Rightarrow> 'u action \<Rightarrow> 'u action" where
  "describe_only h nm fn s =
     (let s1 = setOnlyMode True s
      in describeFunction h nm (AObj [(''only'', JBool True)]) (Some fn) s1)"

definition describe_skip :: "host \<Rightarrow> string \<Rightarrow> 'u action \<Rightarrow> 'u action" where
  "describe_skip h nm fn s = describeFunction h nm (AObj [(''skip'', JBool True)]) (Some fn) s"

definition describe_todo :: "host \<Rightarrow> string \<Rightarrow> 'u action option \<Rightarrow> 'u action" where
  "describe_todo h nm fn s = describeFunction h nm (AObj [(''todo'', JBool True)]) fn s"

section \<open>Test files\<close>

text \<open>
  What a test file does while it is loaded: a sequence of calls of the entry points above,
  suite bodies being such sequences again. A test's body is handed over and not run during
  registration. \<open>CThrow\<close> is a statement of the file that throws.
\<close>

datatype 'u cmd =
    CTest string "jsval \<Rightarrow> 'u action"
  | CTestOnly string "jsval \<Rightarrow> 'u action"
  | CTestSkip string "jsval \<Rightarrow> 'u action"
  | CTestTodo string
  | CRetryTimes int
  | CHook string
  | CDescribe string "'u cmd list"
  | CDescribeOnly string "'u cmd list"
  | CDescribeSkip string "'u cmd list"
  | CDescribeTodo string "'u cmd list"
  | CThrow jsval

fun run_cmd :: "host \<Rightarrow> 'u cmd \<Rightarrow> 'u action"
  and run_body :: "host \<Rightarrow> 'u cmd list \<Rightarrow> 'u action" where
  "run_cmd h (CTest nm f) = testFunction nm (AFun f) AUndefined"
| "run_cmd h (CTestOnly nm f) = test_only nm (Some f) None"
| "run_cmd h (CTestSkip nm f) = test_skip nm (Some f)"
| "run_cmd h (CTestTodo nm) = test_todo nm"
| "run_cmd h (CRetryTimes n) = retryTimes n"
| "run_cmd h (CHook kind) = hook kind"
| "run_cmd h (CDescribe nm body) = describeFunction h nm (AFun (run_body h body)) None"
| "run_cmd h (CDescribeOnly nm body) = describe_only h nm (run_body h body)"
| "run_cmd h (CDescribeSkip nm body) = describe_skip h nm (run_body h body)"
| "run_cmd h (CDescribeTodo nm body) = describe_todo h nm (Some (run_body h body))"
| "run_cmd h (CThrow e) = (\<lambda>s. (Inl e, s))"
| "run_body h [] = (\<lambda>s. (Inr JUndefined, s))"
| "run_body h (c # cs) =
     (\<lambda>s. case run_cmd h c s of
            (Inl e, s1) \<Rightarrow> (Inl e, s1)
          | (Inr v, s1) \<Rightarrow> run_body h cs s1)"

section \<open>withRetries (testRetries.ts)\<close>

text \<open>
  The older wrapper around a test function \<open>testFn\<close>: it reads the retry count when the
  test is registered and closes the loop over that value.
\<close>

definition withRetries_wrappedFn ::
  "(jsval \<Rightarrow> 'u action) \<Rightarrow> int \<Rightarrow> string \<Rightarrow> jsval \<Rightarrow> 'u action" where
  "withRetries_wrappedFn fn retries nm t = retryLoop fn t retries nm 0 JUndefined"

definition withRetries ::
  "(string \<Rightarrow> (jsval \<Rightarrow> 'u action) jsarg \<Rightarrow> (jsval \<Rightarrow> 'u action) option \<Rightarrow> 'u action) \<Rightarrow>
   string \<Rightarrow> (jsval \<Rightarrow> 'u action) jsarg \<Rightarrow> (jsval \<Rightarrow> 'u action) option \<Rightarrow> 'u action" where
  "withRetries testFn nm optionsArg fn s =
     (let (fn1, opts) =
            (case optionsArg of
               AFun f \<Rightarrow> (Some f, AObj [])
             | AUndefined \<Rightarrow> (fn, AObj [])
             | other \<Rightarrow> (fn, other));
          retries = getCurrentRetryCount s
      in case fn1 of
           None \<Rightarrow> testFn nm opts None s
         | Some f \<Rightarrow> testFn nm opts (Some (withRetries_wrappedFn f retries nm)) s)"

section \<open>mockRegistry (registry.ts)\<close>

definition set_add :: "'a \<Rightarrow> 'a list \<Rightarrow> 'a list" where
  "set_add x xs = (if x \<in> set xs then xs else xs @ [x])"

definition registerMock :: "jsval \<Rightarrow> 'u session \<Rightarrow> jsval \<times> 'u session" where
  "registerMock mock s = (mock, s\<lparr>createdMocks := set_add mock (createdMocks s)\<rparr>)"

definition registerSpy ::
  "jsval \<Rightarrow> jsval \<Rightarrow> string \<Rightarrow> jsval \<Rightarrow> string option \<Rightarrow> 'u session \<Rightarrow> jsval \<times> 'u session" where
  "registerSpy spy obj mname orig atype s =
     (spy, s\<lparr>spiedFunctions :=
                AList.update spy \<lparr>object = obj, methodName = mname, original = orig, accessType = atype\<rparr>
                  (spiedFunctions s),
              createdMocks := set_add spy (createdMocks s)\<rparr>)"

text \<open>
  The three bulk operations run the same \<open>forEach\<close>: for each tracked value \<open>x\<close> in
  insertion order, \<open>if (typeof x.m === 'function') x.m()\<close>. The methods belong to the mock
  library; a call is recorded in the trace and returns. Reading \<open>x.m\<close> throws when
  \<open>x\<close> is \<open>undefined\<close> or \<open>null\<close>, which ends the \<open>forEach\<close>.
\<close>

fun forEachCall :: "string \<Rightarrow> jsval list \<Rightarrow> 'u action" where
  "forEachCall m [] s = (Inr JUndefined, s)"
| "forEachCall m (x # xs) s =
     (case getProp x m of
        Inl typeError \<Rightarrow> (Inl typeError, s)
      | Inr f \<Rightarrow> forEachCall m xs (if isFunction f then emit (MethodCall m x) s else s))"

definition clearAllMocks :: "'u action" where
  "clearAllMocks s = forEachCall ''mockClear'' (createdMocks s) s"

definition resetAllMocks :: "'u action" where
  "resetAllMocks s = forEachCall ''mockReset'' (createdMocks s) s"

definition restoreAllMocks :: "'u action" where
  "restoreAllMocks s =
     (case forEachCall ''mockRestore'' (map fst (spiedFunctions s)) s of
        (Inl e, s1) \<Rightarrow> (Inl e, s1)
      | (Inr v, s1) \<Rightarrow> (Inr JUndefined, s1\<lparr>spiedFunctions := []\<rparr>))"

text \<open>\<open>fn && !!fn._isMockFunction\<close>: the left operand itself when it is falsy.\<close>

definition isMockFunction :: "jsval \<Rightarrow> jsval + jsval" where
  "isMockFunction fn =
     (if truthy fn then
        (case getProp fn ''_isMockFunction'' of
           Inl typeError \<Rightarrow> Inl typeError
         | Inr marker \<Rightarrow> Inr (JBool (truthy marker)))
      else Inr fn)"

section \<open>moduleRegistry (registry.ts) and module mocking (moduleMocking.ts)\<close>

definition registerMockedModule :: "string \<Rightarrow> jsval \<Rightarrow> 'u session \<Rightarrow> jsval \<times> 'u session" where
  "registerMockedModule moduleName mockContext s =
     (mockContext, s\<lparr>mockedModules := AList.update moduleName mockContext (mockedModules s)\<rparr>)"

definition getMockedModule :: "string \<Rightarrow> 'u session \<Rightarrow> jsval" where
  "getMockedModule moduleName s =
     (case map_of (mockedModules s) moduleName of None \<Rightarrow> JUndefined | Some c \<Rightarrow> c)"

definition hasMockedModule :: "string \<Rightarrow> 'u session \<Rightarrow> bool" where
  "hasMockedModule moduleName s = (moduleName \<in> set (map fst (mockedModules s)))"

text \<open>
  \<open>v.m()\<close> for a method that the host owns: a TypeError when \<open>v\<close> is \<open>undefined\<close> or
  \<open>null\<close> or \<open>v.m\<close> is not a function; otherwise the call is recorded and returns.
\<close>

definition callMethod :: "jsval \<Rightarrow> string \<Rightarrow> 'u action" where
  "callMethod v m s =
     (case getProp v m of
        Inl typeError \<Rightarrow> (Inl typeError, s)
      | Inr f \<Rightarrow>
          (if isFunction f then (Inr JUndefined, emit (MethodCall m v) s)
           else (Inl (JTypeError (m @ '' is not a function'')), s)))"

definition unmockModule :: "string \<Rightarrow> 'u action" where
  "unmockModule moduleName s =
     (let mockContext = getMockedModule moduleName s
      in if truthy mockContext then
           (case callMethod mockContext ''restore'' s of
              (Inl e, s1) \<Rightarrow> (Inl e, s1)
            | (Inr v, s1) \<Rightarrow>
                (Inr JUndefined, s1\<lparr>mockedModules := AList.delete moduleName (mockedModules s1)\<rparr>))
         else (Inr JUndefined, s))"

text \<open>
  \<open>mockModule\<close>. The host's \<open>test.mock.module\<close> is the parameter \<open>hostMock\<close> (module name,
  default export, named exports); the factory is the caller's. Both may throw and may change
  the session. The factory runs before the \<open>try\<close>; what the \<open>try\<close> catches is logged and
  thrown again. The literal \<open>{}\<close> is an object without properties.
\<close>

definition mockModule ::
  "(string \<Rightarrow> jsval \<Rightarrow> jsval \<Rightarrow> 'u action) \<Rightarrow> string \<Rightarrow> 'u action option \<Rightarrow> 'u action" where
  "mockModule hostMock moduleName factory s =
     (if hasMockedModule moduleName s then (Inr JUndefined, s)
      else
        (case (case factory of Some f \<Rightarrow> f s | None \<Rightarrow> (Inr (JObj 0 []), s)) of
           (Inl e, s1) \<Rightarrow> (Inl e, s1)
         | (Inr moduleExports, s1) \<Rightarrow>
             (case (case getProp moduleExports ''__esModule'' of
                      Inl typeError \<Rightarrow> (Inl typeError, s1)
                    | Inr esm \<Rightarrow>
                        (case (if truthy esm then getProp moduleExports ''default''
                               else Inr moduleExports) of
                           Inl typeError \<Rightarrow> (Inl typeError, s1)
                         | Inr defaultExport \<Rightarrow>
                             (case hostMock moduleName defaultExport moduleExports s1 of
                                (Inl e, s2) \<Rightarrow> (Inl e, s2)
                              | (Inr mockContext, s2) \<Rightarrow>
                                  (Inr mockContext, snd (registerMockedModule moduleName mockContext s2))))) of
                (Inl error, s3) \<Rightarrow> (Inl error, emit (ConsoleError moduleName error) s3)
              | (Inr mockContext, s3) \<Rightarrow> (Inr mockContext, s3))))"

text \<open>
  A host of the shape the runner documents, for concrete runs: it records the substitution
  and returns a fresh context object with a \<open>restore\<close> method.
\<close>

definition hostMockModule :: "nat \<Rightarrow> string \<Rightarrow> jsval \<Rightarrow> jsval \<Rightarrow> 'u action" where
  "hostMockModule ref moduleName defaultExport namedExports s =
     (Inr (JObj ref [(''restore'', JFun (Suc ref) [])]),
      emit (HostMockModule moduleName defaultExport namedExports) s)"

section \<open>Test bodies and hosts for concrete runs\<close>

text \<open>
  A test body that throws \<open>errs ! 0\<close>, \<open>errs ! 1\<close>, ... on its first \<open>length errs\<close>
  invocations and returns from then on; the test file's state counts its invocations.
\<close>

definition flaky :: "jsval list \<Rightarrow> jsval \<Rightarrow> nat action" where
  "flaky errs t s =
     ((if user s < length errs then Inl (errs ! user s) else Inr JUndefined),
      s\<lparr>user := Suc (user s)\<rparr>)"

text \<open>\<open>new Error(m)\<close>, as far as the shim looks at it.\<close>

definition errorObj :: "nat \<Rightarrow> string \<Rightarrow> jsval" where
  "errorObj r m = JObj r [(''message'', JStr m)]"

text \<open>A callback that returns \<open>v\<close> and does nothing else.\<close>

definition returning :: "jsval \<Rightarrow> 'u action" where
  "returning v s = (Inr v, s)"

text \<open>A host that calls every suite function when the suite is registered and keeps its exception.\<close>

definition nodeHost :: host where
  "nodeHost = \<lparr>suiteRuns = (\<lambda>opts. True), suiteCatches = True\<rparr>"

text \<open>A function of the shape the mock library returns, and the exports of a mocked \<open>fs\<close>.\<close>

definition mockFn :: "nat \<Rightarrow> jsval" where
  "mockFn r = JFun r [(''_isMockFunction'', JBool True), (''mockClear'', JFun (r + 1) []),
     (''mockReset'', JFun (r + 2) []), (''mockRestore'', JFun (r + 3) [])]"

definition fsExports :: jsval where
  "fsExports = JObj 1 [(''readFileSync'', JFun 2 [])]"

definition twoSpies :: "unit session" where
  "twoSpies =
     snd (registerSpy (JFun 9 []) (JObj 7 []) ''plain'' (JFun 8 []) None
       (snd (registerSpy (mockFn 3) (JObj 1 []) ''method'' (JFun 2 []) None (initial ()))))"

definition fsMocked :: "unit session" where
  "fsMocked = snd (mockModule (hostMockModule 10) ''fs'' (Some (returning fsExports)) (initial ()))"

section \<open>Predicates used in the statements\<close>

text \<open>\<open>typeof v.m === 'function'\<close>, for a \<open>v\<close> whose property can be read.\<close>

definition hasMethod :: "jsval \<Rightarrow> string \<Rightarrow> bool" where
  "hasMethod v m = (case getProp v m of Inl e \<Rightarrow> False | Inr f \<Rightarrow> isFunction f)"

text \<open>A callback under which the only-mode flag, once true, stays true.\<close>

definition keepsOnly :: "'u action \<Rightarrow> bool" where
  "keepsOnly f = (\<forall>s. onlyMode s \<longrightarrow> onlyMode (snd (f s)))"

text \<open>A test file without a throwing statement, in any suite body.\<close>

fun throwFree :: "'u cmd \<Rightarrow> bool" where
  "throwFree (CThrow e) = False"
| "throwFree (CDescribe nm body) = list_all throwFree body"
| "throwFree (CDescribeOnly nm body) = list_all throwFree body"
| "throwFree (CDescribeSkip nm body) = list_all throwFree body"
| "throwFree (CDescribeTodo nm body) = list_all throwFree body"
| "throwFree c = True"

text \<open>A callback that returns normally and leaves the describe stack as deep as it found it.\<close>

definition balanced :: "'u action \<Rightarrow> bool" where
  "balanced f = (\<forall>s. (\<exists>v. fst (f s) = Inr v) \<and>
     length (describeStack (snd (f s))) = length (describeStack s))"

section \<open>Properties of the retry registry\<close>

lemma top_update:
  "st \<noteq> [] \<Longrightarrow> st[length st - Suc 0 := v] = butlast st @ [v]"
  by (induction st rule: rev_induct) (simp_all add: list_update_append)

lemma top_read:
  "st \<noteq> [] \<Longrightarrow> st ! (length st - Suc 0) = last st"
  by (simp add: last_conv_nth)

lemma getCurrentRetryCount_empty:
  "describeStack s = [] \<Longrightarrow> getCurrentRetryCount s = currentRetryCount s"
  by (simp add: getCurrentRetryCount_def)

lemma getCurrentRetryCount_top:
  "describeStack s \<noteq> [] \<Longrightarrow> getCurrentRetryCount s = retryCount (last (describeStack s))"
  by (simp add: getCurrentRetryCount_def Let_def top_read)

lemma describeStack_push:
  "describeStack (pushDescribeBlock nm s) =
     describeStack s @ [\<lparr>blockName = nm, retryCount = getCurrentRetryCount s\<rparr>]"
  by (simp add: pushDescribeBlock_def)

lemma getCurrentRetryCount_push:
  "getCurrentRetryCount (pushDescribeBlock nm s) = getCurrentRetryCount s"
  by (simp add: getCurrentRetryCount_top describeStack_push)

lemma describeStack_set:
  "describeStack (setGlobalRetryCount n s) =
     (if describeStack s = [] then []
      else butlast (describeStack s) @ [(last (describeStack s))\<lparr>retryCount := n\<rparr>])"
  by (simp add: setGlobalRetryCount_def Let_def top_update top_read)

lemma currentRetryCount_set:
  "currentRetryCount (setGlobalRetryCount n s) = n"
  by (simp add: setGlobalRetryCount_def Let_def)

lemma getCurrentRetryCount_set:
  "getCurrentRetryCount (setGlobalRetryCount n s) = n"
proof (cases "describeStack s = []")
  case True
  then have "describeStack (setGlobalRetryCount n s) = []"
    by (simp add: describeStack_set)
  then show ?thesis
    by (simp add: getCurrentRetryCount_empty currentRetryCount_set)
next
  case False
  then show ?thesis
    by (simp add: getCurrentRetryCount_top describeStack_set)
qed

lemma getCurrentRetryCount_context:
  "getCurrentRetryCount (setCurrentTestContext t s) = getCurrentRetryCount s"
  by (simp add: getCurrentRetryCount_def setCurrentTestContext_def Let_def)

lemma length_describeStack_set:
  "length (describeStack (setGlobalRetryCount n s)) = length (describeStack s)"
  by (cases "describeStack s = []") (simp_all add: describeStack_set)

lemma length_describeStack_push:
  "length (describeStack (pushDescribeBlock nm s)) = Suc (length (describeStack s))"
  by (simp add: describeStack_push)

lemma length_describeStack_pop:
  "length (describeStack (popDescribeBlock s)) = length (describeStack s) - 1"
  by (simp add: popDescribeBlock_def)

text \<open>
  C4: \<open>pushDescribeBlock\<close> pushes the name with the count that \<open>getCurrentRetryCount\<close>
  returns before the push, which is the innermost entry's count when the stack is not empty
  and the global default otherwise; so a suite pushed after \<open>setGlobalRetryCount n\<close> carries
  \<open>n\<close>. \<open>setGlobalRetryCount n\<close> sets the global default, overwrites the count of the top
  entry when there is one, and every later read of the current count gives \<open>n\<close>.
\<close>

theorem retry_inheritance:
  "describeStack (pushDescribeBlock nm s) =
     describeStack s @ [\<lparr>blockName = nm, retryCount = getCurrentRetryCount s\<rparr>]
   \<and> getCurrentRetryCount s =
     (if describeStack s = [] then currentRetryCount s else retryCount (last (describeStack s)))
   \<and> retryCount (last (describeStack (pushDescribeBlock child (setGlobalRetryCount n s)))) = n
   \<and> currentRetryCount (setGlobalRetryCount n s) = n
   \<and> describeStack (setGlobalRetryCount n s) =
     (if describeStack s = [] then []
      else butlast (describeStack s) @ [(last (describeStack s))\<lparr>retryCount := n\<rparr>])
   \<and> getCurrentRetryCount (setGlobalRetryCount n s) = n"
  by (simp add: describeStack_push getCurrentRetryCount_set currentRetryCount_set
      describeStack_set getCurrentRetryCount_empty getCurrentRetryCount_top)

theorem retry_inheritance_witness:
  "describeStack (pushDescribeBlock ''child''
      (setGlobalRetryCount 3 (pushDescribeBlock ''parent'' (initial ())))) =
     [\<lparr>blockName = ''parent'', retryCount = 3\<rparr>, \<lparr>blockName = ''child'', retryCount = 3\<rparr>]
   \<and> currentRetryCount (setGlobalRetryCount 3 (pushDescribeBlock ''parent'' (initial ()))) = 3
   \<and> getCurrentRetryCount (setGlobalRetryCount 3 (pushDescribeBlock ''parent'' (initial ()))) = 3"
  using retry_inheritance [of "''child''"
      "setGlobalRetryCount 3 (pushDescribeBlock ''parent'' (initial ()))" "''child''" 3
      ]
    retry_inheritance [of "''parent''" "initial ()" "''child''" 3]
    retry_inheritance [of "''x''" "pushDescribeBlock ''parent'' (initial ())" "''child''" 3]
  by (simp add: initial_def)

section \<open>Balance of the describe stack\<close>

text \<open>
  C1, as the code has it: for a suite body that leaves the stack as deep as it found it, the
  depth after the wrapped body equals the depth before it when the body returns; when the
  body throws, the wrapper is left before the pop and the pushed entry stays, so the depth
  is one more.
\<close>

theorem describe_wrappedFn_depth:
  assumes "fn (pushDescribeBlock nm s) = (r, s')"
    and "length (describeStack s') = Suc (length (describeStack s))"
  shows "length (describeStack (snd (describe_wrappedFn nm fn s))) =
           (case r of Inr v \<Rightarrow> length (describeStack s) | Inl e \<Rightarrow> Suc (length (describeStack s)))"
  using assms by (cases r) (simp_all add: describe_wrappedFn_def length_describeStack_pop)

theorem describe_wrappedFn_depth_witness:
  "length (describeStack (snd (describe_wrappedFn ''A'' (run_body nodeHost [CRetryTimes 2])
      (initial ())))) = length (describeStack (initial ()))"
proof -
  have run: "run_body nodeHost [CRetryTimes 2] (pushDescribeBlock ''A'' (initial ())) =
      (Inr JUndefined, setGlobalRetryCount 2 (pushDescribeBlock ''A'' (initial ())))"
    by (simp add: retryTimes_def)
  have depth: "length (describeStack (setGlobalRetryCount 2 (pushDescribeBlock ''A'' (initial ())))) =
      Suc (length (describeStack (initial ())))"
    by (simp add: length_describeStack_set length_describeStack_push)
  show ?thesis
    using describe_wrappedFn_depth [of "run_body nodeHost [CRetryTimes 2]" "''A''" "initial ()"
        "Inr JUndefined" "setGlobalRetryCount 2 (pushDescribeBlock ''A'' (initial ()))",
        OF run depth]
    by simp
qed

text \<open>
  A suite body whose only statement throws: the stack is empty before the wrapped body runs
  and holds the suite's entry after it.
\<close>

theorem describe_throw_counterexample:
  "length (describeStack (initial ())) = 0 \<and>
   length (describeStack (snd (describe_wrappedFn ''A''
      (run_body nodeHost [CThrow (JStr ''boom'')]) (initial ())))) = 1"
  by (simp add: describe_wrappedFn_def initial_def pushDescribeBlock_def getCurrentRetryCount_def)

text \<open>
  Test files that do not throw satisfy the hypothesis above: every entry point returns and
  leaves the stack as deep as it found it, under every host.
\<close>

lemma describeStack_emit: "describeStack (emit e s) = describeStack s"
  by (simp add: emit_def)

lemma balanced_testFunction: "balanced (testFunction nm a b)"
  by (simp add: balanced_def testFunction_def nodeTest_def describeStack_emit
      split: jsarg.splits prod.splits)

lemma balanced_describe_wrappedFn:
  assumes "balanced fn"
  shows "balanced (describe_wrappedFn nm fn)"
  unfolding balanced_def
proof
  fix s :: "'a session"
  obtain r s' where r: "fn (pushDescribeBlock nm s) = (r, s')" by (cases "fn (pushDescribeBlock nm s)")
  with assms obtain v where v: "r = Inr v"
    and l: "length (describeStack s') = Suc (length (describeStack s))"
    unfolding balanced_def
    by (metis fst_conv snd_conv length_describeStack_push)
  show "(\<exists>v. fst (describe_wrappedFn nm fn s) = Inr v) \<and>
     length (describeStack (snd (describe_wrappedFn nm fn s))) = length (describeStack s)"
    using r v l by (simp add: describe_wrappedFn_def length_describeStack_pop)
qed

lemma balanced_nodeDescribe:
  assumes "\<And>w. wrappedFn = Some w \<Longrightarrow> balanced w"
  shows "balanced (nodeDescribe h nm opts wrappedFn)"
proof (cases wrappedFn)
  case None
  then show ?thesis
    by (simp add: balanced_def nodeDescribe_def describeStack_emit)
next
  case (Some w)
  then have b: "balanced w" by (rule assms)
  show ?thesis
    unfolding balanced_def
  proof
    fix s :: "'a session"
    let ?s1 = "emit (NodeDescribe nm opts True) s"
    obtain r s2 where r: "w ?s1 = (r, s2)" by (cases "w ?s1")
    with b obtain v where v: "r = Inr v"
      and l: "length (describeStack s2) = length (describeStack s)"
      unfolding balanced_def
      by (metis fst_conv snd_conv describeStack_emit)
    show "(\<exists>v. fst (nodeDescribe h nm opts wrappedFn s) = Inr v) \<and>
       length (describeStack (snd (nodeDescribe h nm opts wrappedFn s))) = length (describeStack s)"
      using Some r v l by (simp add: nodeDescribe_def Let_def describeStack_emit)
  qed
qed

lemma balanced_wrapped_option:
  "(\<And>f. fn = Some f \<Longrightarrow> balanced f) \<Longrightarrow>
   map_option (describe_wrappedFn nm) fn = Some w \<Longrightarrow> balanced w"
  by (cases fn) (auto intro: balanced_describe_wrappedFn)

lemma balanced_describe_body:
  assumes "balanced f"
  shows "balanced (describeFunction h nm (AFun f) None)"
    and "balanced (describeFunction h nm (AObj ob) (Some f))"
proof -
  have e1: "describeFunction h nm (AFun f) None =
      nodeDescribe h nm [] (map_option (describe_wrappedFn nm) (Some f))"
    by (intro ext) (simp add: describeFunction_def)
  have e2: "describeFunction h nm (AObj ob) (Some f) =
      nodeDescribe h nm ob (map_option (describe_wrappedFn nm) (Some f))"
    by (intro ext) (simp add: describeFunction_def)
  show "balanced (describeFunction h nm (AFun f) None)"
    unfolding e1 using assms
    by (intro balanced_nodeDescribe) (auto intro: balanced_describe_wrappedFn)
  show "balanced (describeFunction h nm (AObj ob) (Some f))"
    unfolding e2 using assms
    by (intro balanced_nodeDescribe) (auto intro: balanced_describe_wrappedFn)
qed

lemma balanced_setOnly:
  "balanced f \<Longrightarrow> balanced (\<lambda>s. f (setOnlyMode b s))"
  by (simp add: balanced_def setOnlyMode_def)

lemma describe_only_alt:
  "describe_only h nm fn = (\<lambda>s. describeFunction h nm (AObj [(''only'', JBool True)]) (Some fn) (setOnlyMode True s))"
  by (intro ext) (simp add: describe_only_def)

lemma balanced_run:
  fixes c :: "'u cmd" and cs :: "'u cmd list"
  shows "throwFree c \<Longrightarrow> balanced (run_cmd h c)"
    and "list_all throwFree cs \<Longrightarrow> balanced (run_body h cs)"
proof (induction h c and h cs rule: run_cmd_run_body.induct)
  case (1 h nm f)
  then show ?case by (simp add: balanced_testFunction)
next
  case (2 h nm f)
  have "balanced (\<lambda>s. testFunction nm (AObj [(''only'', JBool True)]) (AFun f) (setOnlyMode True s))"
    by (intro balanced_setOnly balanced_testFunction)
  then show ?case by (simp add: test_only_def [abs_def])
next
  case (3 h nm f)
  then show ?case by (simp add: test_skip_def [abs_def] balanced_testFunction)
next
  case (4 h nm)
  then show ?case by (simp add: test_todo_def [abs_def] balanced_testFunction)
next
  case (5 h n)
  then show ?case by (simp add: balanced_def retryTimes_def length_describeStack_set)
next
  case (6 h kind)
  then show ?case by (simp add: balanced_def hook_def describeStack_emit)
next
  case (7 h nm body)
  then show ?case by (simp add: balanced_describe_body)
next
  case (8 h nm body)
  then have "balanced (run_body h body)" by simp
  then show ?case
    by (simp add: describe_only_alt balanced_setOnly balanced_describe_body)
next
  case (9 h nm body)
  then show ?case by (simp add: describe_skip_def [abs_def] balanced_describe_body)
next
  case (10 h nm body)
  then show ?case by (simp add: describe_todo_def [abs_def] balanced_describe_body)
next
  case (11 h e)
  then show ?case by simp
next
  case (12 h)
  then show ?case by (simp add: balanced_def)
next
  case (13 h c cs)
  from 13 have bc: "balanced (run_cmd h c)" by simp
  show ?case
    unfolding balanced_def
  proof
    fix s :: "'u session"
    obtain r s1 where r: "run_cmd h c s = (r, s1)" by (cases "run_cmd h c s")
    with bc obtain v where v: "r = Inr v"
      and l: "length (describeStack s1) = length (describeStack s)"
      unfolding balanced_def by (metis fst_conv snd_conv)
    have "balanced (run_body h cs)"
      using 13(2) [OF r [symmetric] v] 13(3) by simp
    then show "(\<exists>v. fst (run_body h (c # cs) s) = Inr v) \<and>
       length (describeStack (snd (run_body h (c # cs) s))) = length (describeStack s)"
      using r v l by (simp add: balanced_def)
  qed
qed

section \<open>The retry loop on a body that fails a given number of times\<close>

lemma getProp_defined: "\<not> nullish v \<Longrightarrow> \<exists>m. getProp v k = Inr m"
  by (cases v) simp_all

lemma user_emit: "user (emit e s) = user s"
  by (simp add: emit_def)

lemma retryLoop_flaky_success:
  assumes "user s = a" and "a \<le> length errs" and "int (length errs) \<le> N"
    and "\<forall>i. a \<le> i \<and> i < length errs \<longrightarrow> \<not> nullish (errs ! i)"
  shows "fst (retryLoop (flaky errs) t N nm a lastE s) = Inr JUndefined \<and>
         user (snd (retryLoop (flaky errs) t N nm a lastE s)) = Suc (length errs)"
  using assms
proof (induction "length errs - a" arbitrary: a s lastE)
  case 0
  then have a: "a = length errs" by simp
  with 0 show ?case
    by (subst (1 2) retryLoop.simps) (simp add: flaky_def)
next
  case (Suc d)
  then have lt: "a < length errs" by simp
  with Suc.prems have ltN: "int a < N" by simp
  from Suc.prems lt have "\<not> nullish (errs ! a)" by simp
  then obtain m where m: "getProp (errs ! a) ''message'' = Inr m"
    using getProp_defined by blast
  let ?s1 = "emit (ConsoleLog nm (a + 1) m) (s\<lparr>user := Suc a\<rparr>)"
  have step: "retryLoop (flaky errs) t N nm a lastE s =
              retryLoop (flaky errs) t N nm (Suc a) (errs ! a) ?s1"
    using lt ltN m Suc.prems(1) by (subst retryLoop.simps) (simp add: flaky_def)
  have "fst (retryLoop (flaky errs) t N nm (Suc a) (errs ! a) ?s1) = Inr JUndefined \<and>
        user (snd (retryLoop (flaky errs) t N nm (Suc a) (errs ! a) ?s1)) = Suc (length errs)"
  proof (rule Suc.hyps(1))
    show "d = length errs - Suc a" using Suc.hyps(2) by simp
    show "user ?s1 = Suc a" by (simp add: user_emit)
    show "Suc a \<le> length errs" using lt by simp
    show "int (length errs) \<le> N" by (rule Suc.prems(3))
    show "\<forall>i. Suc a \<le> i \<and> i < length errs \<longrightarrow> \<not> nullish (errs ! i)"
      using Suc.prems(4) by simp
  qed
  with step show ?case by simp
qed

lemma retryLoop_flaky_exhaust:
  assumes "user s = a" and "int a \<le> N + 1" and "N < int (length errs)"
    and "\<forall>i. a \<le> i \<and> int i < N \<longrightarrow> \<not> nullish (errs ! i)"
    and "int a = N + 1 \<longrightarrow> lastE = errs ! nat N"
  shows "fst (retryLoop (flaky errs) t N nm a lastE s) =
           (if truthy (errs ! nat N) then Inl (errs ! nat N) else Inr JUndefined) \<and>
         user (snd (retryLoop (flaky errs) t N nm a lastE s)) = nat (N + 1)"
  using assms
proof (induction "nat (N + 1 - int a)" arbitrary: a s lastE)
  case 0
  then have a: "int a = N + 1" by simp
  with 0 show ?case
    by (subst (1 2) retryLoop.simps) auto
next
  case (Suc d)
  then have le: "int a \<le> N" by simp
  with Suc.prems have lt: "a < length errs" by simp
  show ?case
  proof (cases "int a < N")
    case True
    with Suc.prems have "\<not> nullish (errs ! a)" by simp
    then obtain m where m: "getProp (errs ! a) ''message'' = Inr m"
      using getProp_defined by blast
    let ?s1 = "emit (ConsoleLog nm (a + 1) m) (s\<lparr>user := Suc a\<rparr>)"
    have step: "retryLoop (flaky errs) t N nm a lastE s =
                retryLoop (flaky errs) t N nm (Suc a) (errs ! a) ?s1"
      using lt le True m Suc.prems(1) by (subst retryLoop.simps) (simp add: flaky_def)
    have "fst (retryLoop (flaky errs) t N nm (Suc a) (errs ! a) ?s1) =
            (if truthy (errs ! nat N) then Inl (errs ! nat N) else Inr JUndefined) \<and>
          user (snd (retryLoop (flaky errs) t N nm (Suc a) (errs ! a) ?s1)) = nat (N + 1)"
    proof (rule Suc.hyps(1))
      show "d = nat (N + 1 - int (Suc a))" using Suc.hyps(2) by simp
      show "user ?s1 = Suc a" by (simp add: user_emit)
      show "int (Suc a) \<le> N + 1" using le by simp
      show "N < int (length errs)" by (rule Suc.prems(3))
      show "\<forall>i. Suc a \<le> i \<and> int i < N \<longrightarrow> \<not> nullish (errs ! i)"
        using Suc.prems(4) by simp
      show "int (Suc a) = N + 1 \<longrightarrow> errs ! a = errs ! nat N" using True by simp
    qed
    with step show ?thesis by simp
  next
    case False
    with le have eq: "int a = N" by simp
    let ?s1 = "s\<lparr>user := Suc a\<rparr>"
    have step: "retryLoop (flaky errs) t N nm a lastE s =
                retryLoop (flaky errs) t N nm (Suc a) (errs ! a) ?s1"
      using lt eq Suc.prems(1) by (subst retryLoop.simps) (simp add: flaky_def)
    have "fst (retryLoop (flaky errs) t N nm (Suc a) (errs ! a) ?s1) =
            (if truthy (errs ! nat N) then Inl (errs ! nat N) else Inr JUndefined) \<and>
          user (snd (retryLoop (flaky errs) t N nm (Suc a) (errs ! a) ?s1)) = nat (N + 1)"
    proof (rule Suc.hyps(1))
      show "d = nat (N + 1 - int (Suc a))" using Suc.hyps(2) by simp
      show "user ?s1 = Suc a" by simp
      show "int (Suc a) \<le> N + 1" using le by simp
      show "N < int (length errs)" by (rule Suc.prems(3))
      show "\<forall>i. Suc a \<le> i \<and> int i < N \<longrightarrow> \<not> nullish (errs ! i)"
        using Suc.prems(4) by simp
      show "int (Suc a) = N + 1 \<longrightarrow> errs ! a = errs ! nat N" using eq by auto
    qed
    with step show ?thesis by simp
  qed
qed

text \<open>
  The same outcome through the wrapper of the test function, which runs the loop only under
  a positive count and calls the body directly under a zero count.
\<close>

lemma test_wrappedFn_flaky:
  assumes "getCurrentRetryCount s = N" and "0 \<le> N" and "user s = 0"
    and "\<forall>i. i < length errs \<and> int i < N \<longrightarrow> \<not> nullish (errs ! i)"
    and "0 < N \<and> N < int (length errs) \<longrightarrow> truthy (errs ! nat N)"
  shows "if int (length errs) \<le> N
         then fst (test_wrappedFn nm (flaky errs) t s) = Inr JUndefined \<and>
              user (snd (test_wrappedFn nm (flaky errs) t s)) = length errs + 1
         else fst (test_wrappedFn nm (flaky errs) t s) = Inl (errs ! nat N) \<and>
              user (snd (test_wrappedFn nm (flaky errs) t s)) = nat N + 1"
proof (cases "0 < N")
  case False
  with assms(2) have z: "N = 0" by simp
  have g: "getCurrentRetryCount (setCurrentTestContext t s) = 0"
    using assms(1) z by (simp add: getCurrentRetryCount_context)
  show ?thesis
    using z assms(3) g
    by (simp add: test_wrappedFn_def Let_def flaky_def setCurrentTestContext_def)
next
  case True
  let ?s1 = "setCurrentTestContext t s"
  have g: "getCurrentRetryCount ?s1 = N"
    using assms(1) by (simp add: getCurrentRetryCount_context)
  have u: "user ?s1 = 0" using assms(3) by (simp add: setCurrentTestContext_def)
  have w: "test_wrappedFn nm (flaky errs) t s = retryLoop (flaky errs) t N nm 0 JUndefined ?s1"
    using True g by (simp add: test_wrappedFn_def Let_def handleRetries_def)
  show ?thesis
  proof (cases "int (length errs) \<le> N")
    case le: True
    have "\<forall>i. 0 \<le> i \<and> i < length errs \<longrightarrow> \<not> nullish (errs ! i)"
      using assms(4) le by auto
    with retryLoop_flaky_success [of ?s1 0 errs N t nm JUndefined] u le
    show ?thesis by (simp add: w)
  next
    case False
    have "\<forall>i. 0 \<le> i \<and> int i < N \<longrightarrow> \<not> nullish (errs ! i)"
      using assms(4) False by auto
    with retryLoop_flaky_exhaust [of ?s1 0 N errs JUndefined t nm] u assms(2,5) True False
    show ?thesis by (simp add: w nat_add_distrib)
  qed
qed


text \<open>
  Where the retry loop does what is expected of it: let the body fail on exactly its first
  \<open>K = length errs\<close> invocations and succeed on the next, let the budget be \<open>N \<ge> 0\<close>,
  and let no value thrown on an attempt that is followed by a retry be \<open>undefined\<close> or
  \<open>null\<close>. If \<open>K \<le> N\<close> the loop returns after exactly \<open>K + 1\<close> invocations. If
  \<open>K > N\<close> and the value thrown on attempt \<open>N + 1\<close> is truthy, the loop invokes the body
  exactly \<open>N + 1\<close> times and throws that very value.
\<close>

theorem retry_outcome:
  assumes "0 \<le> N" and "user s = 0"
    and "\<forall>i. i < length errs \<and> int i < N \<longrightarrow> \<not> nullish (errs ! i)"
    and "N < int (length errs) \<longrightarrow> truthy (errs ! nat N)"
  shows "if int (length errs) \<le> N
         then fst (handleRetries t (flaky errs) N nm s) = Inr JUndefined \<and>
              user (snd (handleRetries t (flaky errs) N nm s)) = length errs + 1
         else fst (handleRetries t (flaky errs) N nm s) = Inl (errs ! nat N) \<and>
              user (snd (handleRetries t (flaky errs) N nm s)) = nat N + 1"
proof (cases "int (length errs) \<le> N")
  case True
  have "\<forall>i. 0 \<le> i \<and> i < length errs \<longrightarrow> \<not> nullish (errs ! i)"
    using assms(3) True by auto
  with retryLoop_flaky_success [of s 0 errs N t nm JUndefined] assms(2) True
  show ?thesis by (simp add: handleRetries_def)
next
  case False
  have "\<forall>i. 0 \<le> i \<and> int i < N \<longrightarrow> \<not> nullish (errs ! i)"
    using assms(3) False by auto
  with retryLoop_flaky_exhaust [of s 0 N errs JUndefined t nm] assms False
  show ?thesis by (simp add: handleRetries_def nat_add_distrib)
qed

theorem retry_outcome_witness:
  "fst (handleRetries JNull (flaky [errorObj 1 ''first'']) 2 ''t'' (initial 0)) = Inr JUndefined
   \<and> user (snd (handleRetries JNull (flaky [errorObj 1 ''first'']) 2 ''t'' (initial 0))) = 2
   \<and> fst (handleRetries JNull (flaky [errorObj 1 ''first'', errorObj 2 ''second'', errorObj 3 ''third''])
        1 ''t'' (initial 0)) = Inl (errorObj 2 ''second'')
   \<and> user (snd (handleRetries JNull
        (flaky [errorObj 1 ''first'', errorObj 2 ''second'', errorObj 3 ''third''])
        1 ''t'' (initial 0))) = 2"
proof -
  have u: "user (initial (0::nat)) = 0" by (simp add: initial_def)
  have a1: "\<forall>i. i < length [errorObj 1 ''first''] \<and> int i < 2 \<longrightarrow>
      \<not> nullish ([errorObj 1 ''first''] ! i)"
    by (simp add: errorObj_def)
  have a2: "\<forall>i. i < length [errorObj 1 ''first'', errorObj 2 ''second'', errorObj 3 ''third'']
        \<and> int i < 1 \<longrightarrow>
      \<not> nullish ([errorObj 1 ''first'', errorObj 2 ''second'', errorObj 3 ''third''] ! i)"
    by (simp add: errorObj_def)
  have b2: "1 < int (length [errorObj 1 ''first'', errorObj 2 ''second'', errorObj 3 ''third''])
      \<longrightarrow> truthy ([errorObj 1 ''first'', errorObj 2 ''second'', errorObj 3 ''third''] ! nat 1)"
    by (simp add: errorObj_def)
  show ?thesis
    using retry_outcome [of 2 "initial 0" "[errorObj 1 ''first'']" JNull "''t''", OF _ u a1]
      retry_outcome [of 1 "initial 0"
        "[errorObj 1 ''first'', errorObj 2 ''second'', errorObj 3 ''third'']" JNull "''t''",
        OF _ u a2 b2]
    by simp
qed

text \<open>
  C3 where the loop departs from it. Under a budget of 1, a body that throws an error object
  and then \<open>undefined\<close> has failed on both attempts, yet the final \<open>if (lastError)\<close>
  lets the loop return, against the comment above it (\<open>If we've exhausted all retries and
  still failed, throw the last error\<close>); the same wrapper under a budget of 0 calls the body
  directly and throws the \<open>undefined\<close>. Under a budget of 1, a body that throws
  \<open>undefined\<close> once and would succeed on its second invocation is never retried: reading
  \<open>error.message\<close> for the log line throws a TypeError after the first invocation.
\<close>

theorem retry_exhausted_passes:
  "fst (handleRetries JNull (flaky [errorObj 1 ''first'', JUndefined]) 1 ''t'' (initial 0)) =
     Inr JUndefined
   \<and> user (snd (handleRetries JNull (flaky [errorObj 1 ''first'', JUndefined]) 1 ''t''
        (initial 0))) = 2
   \<and> fst (test_wrappedFn ''t'' (flaky [errorObj 1 ''first'', JUndefined]) JNull
        (snd (retryTimes 1 (initial 0)))) = Inr JUndefined
   \<and> user (snd (test_wrappedFn ''t'' (flaky [errorObj 1 ''first'', JUndefined]) JNull
        (snd (retryTimes 1 (initial 0))))) = 2
   \<and> fst (test_wrappedFn ''t'' (flaky [JUndefined]) JNull (initial 0)) = Inl JUndefined
   \<and> user (snd (test_wrappedFn ''t'' (flaky [JUndefined]) JNull (initial 0))) = 1
   \<and> fst (test_wrappedFn ''t'' (flaky [JUndefined]) JNull (snd (retryTimes 1 (initial 0)))) =
       Inl (JTypeError ''Cannot read properties of undefined (reading message)'')
   \<and> user (snd (test_wrappedFn ''t'' (flaky [JUndefined]) JNull
        (snd (retryTimes 1 (initial 0))))) = 1"
  by (simp add: test_wrappedFn_def handleRetries_def retryLoop.simps retryTimes_def
      setGlobalRetryCount_def getCurrentRetryCount_def setCurrentTestContext_def Let_def
      flaky_def initial_def errorObj_def emit_def)

text \<open>
  C10, as the code has it: for every budget \<open>N \<ge> 0\<close>, if each of the \<open>N + 1\<close> attempts
  throws a falsy value, and the values thrown on the first \<open>N\<close> attempts are not
  \<open>undefined\<close> or \<open>null\<close>, the final \<open>lastError\<close> check fails and the wrapper returns
  after \<open>N + 1\<close> invocations of the body.
\<close>

theorem falsy_errors_pass:
  assumes "0 \<le> N" and "user s = 0" and "N < int (length errs)"
    and "\<forall>i. int i \<le> N \<longrightarrow> \<not> truthy (errs ! i)"
    and "\<forall>i. int i < N \<longrightarrow> \<not> nullish (errs ! i)"
  shows "fst (withRetries_wrappedFn (flaky errs) N nm t s) = Inr JUndefined \<and>
         user (snd (withRetries_wrappedFn (flaky errs) N nm t s)) = nat N + 1"
proof -
  have "\<not> truthy (errs ! nat N)" using assms(1,4) by simp
  moreover have "\<forall>i. 0 \<le> i \<and> int i < N \<longrightarrow> \<not> nullish (errs ! i)"
    using assms(5) by simp
  ultimately show ?thesis
    using retryLoop_flaky_exhaust [of s 0 N errs JUndefined t nm] assms(1,2,3)
    by (simp add: withRetries_wrappedFn_def nat_add_distrib)
qed

theorem falsy_errors_pass_witness:
  "fst (withRetries_wrappedFn (flaky [JNum 0, JStr [], JUndefined]) 2 ''t'' JNull (initial 0)) =
     Inr JUndefined
   \<and> user (snd (withRetries_wrappedFn (flaky [JNum 0, JStr [], JUndefined]) 2 ''t'' JNull
        (initial 0))) = 3"
proof -
  have u: "user (initial (0::nat)) = 0" by (simp add: initial_def)
  have f: "\<forall>i. int i \<le> 2 \<longrightarrow> \<not> truthy ([JNum 0, JStr [], JUndefined] ! i)"
  proof (intro allI impI)
    fix i :: nat assume "int i \<le> 2"
    then have "i = 0 \<or> i = 1 \<or> i = 2" by auto
    then show "\<not> truthy ([JNum 0, JStr [], JUndefined] ! i)" by auto
  qed
  have n: "\<forall>i. int i < 2 \<longrightarrow> \<not> nullish ([JNum 0, JStr [], JUndefined] ! i)"
  proof (intro allI impI)
    fix i :: nat assume "int i < 2"
    then have "i = 0 \<or> i = 1" by auto
    then show "\<not> nullish ([JNum 0, JStr [], JUndefined] ! i)" by auto
  qed
  show ?thesis
    using falsy_errors_pass [of 2 "initial 0" "[JNum 0, JStr [], JUndefined]" "''t''" JNull,
        OF _ u _ f n]
    by simp
qed

text \<open>
  The budget is 1 and the body throws \<open>undefined\<close> each time: reading \<open>error.message\<close> for
  the log line of the first attempt throws a TypeError, which leaves the wrapper after one
  invocation of the body.
\<close>

theorem falsy_errors_pass_counterexample:
  "fst (withRetries_wrappedFn (flaky [JUndefined, JUndefined]) 1 ''t'' JNull (initial 0)) =
     Inl (JTypeError ''Cannot read properties of undefined (reading message)'')
   \<and> user (snd (withRetries_wrappedFn (flaky [JUndefined, JUndefined]) 1 ''t'' JNull
        (initial 0))) = 1"
  by (simp add: withRetries_wrappedFn_def retryLoop.simps flaky_def initial_def)

section \<open>The only-mode flag\<close>

lemma onlyMode_emit: "onlyMode (emit e s) = onlyMode s"
  by (simp add: emit_def)

lemma onlyMode_setGlobalRetryCount: "onlyMode (setGlobalRetryCount n s) = onlyMode s"
  by (simp add: setGlobalRetryCount_def Let_def)

lemma onlyMode_push: "onlyMode (pushDescribeBlock nm s) = onlyMode s"
  by (simp add: pushDescribeBlock_def)

lemma onlyMode_pop: "onlyMode (popDescribeBlock s) = onlyMode s"
  by (simp add: popDescribeBlock_def)

lemma onlyMode_testFunction: "onlyMode (snd (testFunction nm a b s)) = onlyMode s"
  by (simp add: testFunction_def nodeTest_def onlyMode_emit split: jsarg.splits prod.splits)

lemma onlyMode_test_only: "onlyMode (snd (test_only nm fn timeout s))"
  by (simp add: test_only_def Let_def onlyMode_testFunction setOnlyMode_def)

lemma keepsOnly_describe_wrappedFn:
  "keepsOnly fn \<Longrightarrow> keepsOnly (describe_wrappedFn nm fn)"
  unfolding keepsOnly_def describe_wrappedFn_def
proof (intro allI impI)
  fix s :: "'a session"
  assume k: "\<forall>s. onlyMode s \<longrightarrow> onlyMode (snd (fn s))" and o: "onlyMode s"
  then have "onlyMode (snd (fn (pushDescribeBlock nm s)))"
    by (simp add: onlyMode_push)
  then show "onlyMode (snd (case fn (pushDescribeBlock nm s) of
        (Inl e, s') \<Rightarrow> (Inl e, s') | (Inr v, s') \<Rightarrow> (Inr JUndefined, popDescribeBlock s')))"
    by (cases "fn (pushDescribeBlock nm s)") (auto simp: onlyMode_pop split: sum.splits)
qed

lemma keepsOnly_nodeDescribe:
  "(\<And>w. wrappedFn = Some w \<Longrightarrow> keepsOnly w) \<Longrightarrow> keepsOnly (nodeDescribe h nm opts wrappedFn)"
  unfolding keepsOnly_def nodeDescribe_def Let_def
  by (auto simp: onlyMode_emit split: option.splits prod.splits sum.splits)
     (metis onlyMode_emit snd_conv)+

lemma keepsOnly_wrapped_option:
  "(\<And>f. fn = Some f \<Longrightarrow> keepsOnly f) \<Longrightarrow>
   map_option (describe_wrappedFn nm) fn = Some w \<Longrightarrow> keepsOnly w"
  by (cases fn) (auto intro: keepsOnly_describe_wrappedFn)

lemma keepsOnly_describeFunction:
  assumes a: "\<And>f. fnOrOptions = AFun f \<Longrightarrow> keepsOnly f"
    and b: "\<And>f. fn = Some f \<Longrightarrow> keepsOnly f"
  shows "keepsOnly (describeFunction h nm fnOrOptions fn)"
proof (cases fnOrOptions)
  case (AFun f)
  then have eq: "describeFunction h nm fnOrOptions fn =
      nodeDescribe h nm [] (map_option (describe_wrappedFn nm) (Some f))"
    by (intro ext) (simp add: describeFunction_def)
  show ?thesis
    unfolding eq using a [OF AFun]
    by (intro keepsOnly_nodeDescribe) (auto intro: keepsOnly_describe_wrappedFn)
next
  case (AObj ob)
  then have eq: "describeFunction h nm fnOrOptions fn =
      nodeDescribe h nm ob (map_option (describe_wrappedFn nm) fn)"
    by (intro ext) (simp add: describeFunction_def)
  show ?thesis
    unfolding eq by (intro keepsOnly_nodeDescribe) (rule keepsOnly_wrapped_option [OF b])
next
  case (ANum n)
  then have eq: "describeFunction h nm fnOrOptions fn =
      nodeDescribe h nm [] (map_option (describe_wrappedFn nm) fn)"
    by (intro ext) (simp add: describeFunction_def)
  show ?thesis
    unfolding eq by (intro keepsOnly_nodeDescribe) (rule keepsOnly_wrapped_option [OF b])
next
  case AUndefined
  then have eq: "describeFunction h nm fnOrOptions fn =
      nodeDescribe h nm [] (map_option (describe_wrappedFn nm) fn)"
    by (intro ext) (simp add: describeFunction_def)
  show ?thesis
    unfolding eq by (intro keepsOnly_nodeDescribe) (rule keepsOnly_wrapped_option [OF b])
qed

lemma keepsOnly_run:
  fixes c :: "'u cmd" and cs :: "'u cmd list"
  shows "keepsOnly (run_cmd h c)" and "keepsOnly (run_body h cs)"
proof (induction h c and h cs rule: run_cmd_run_body.induct)
  case (7 h nm body)
  then show ?case by (auto intro!: keepsOnly_describeFunction)
next
  case (8 h nm body)
  have "keepsOnly (describeFunction h nm (AObj [(''only'', JBool True)]) (Some (run_body h body)))"
    using 8 by (auto intro!: keepsOnly_describeFunction)
  then show ?case
    by (simp add: keepsOnly_def describe_only_def setOnlyMode_def)
next
  case (9 h nm body)
  have "keepsOnly (describeFunction h nm (AObj [(''skip'', JBool True)]) (Some (run_body h body)))"
    using 9 by (auto intro!: keepsOnly_describeFunction)
  then show ?case
    by (simp add: keepsOnly_def describe_skip_def)
next
  case (10 h nm body)
  have "keepsOnly (describeFunction h nm (AObj [(''todo'', JBool True)]) (Some (run_body h body)))"
    using 10 by (auto intro!: keepsOnly_describeFunction)
  then show ?case
    by (simp add: keepsOnly_def describe_todo_def)
next
  case (13 h c cs)
  then show ?case
    unfolding keepsOnly_def
    by (auto split: prod.splits sum.splits) (metis snd_conv)+
qed (simp_all add: keepsOnly_def onlyMode_testFunction onlyMode_test_only test_skip_def
      test_todo_def retryTimes_def hook_def onlyMode_emit onlyMode_setGlobalRetryCount)

lemma onlyMode_describe_only: "onlyMode (snd (describe_only h nm fn s))" if "keepsOnly fn"
proof -
  have "keepsOnly (describeFunction h nm (AObj [(''only'', JBool True)]) (Some fn))"
    using that by (auto intro!: keepsOnly_describeFunction)
  then show ?thesis by (simp add: keepsOnly_def describe_only_def setOnlyMode_def)
qed


text \<open>
  Running a registered test does not clear the flag either: the wrapper of the test function
  and the retry loop keep it when the test body does.
\<close>

lemma keepsOnly_retryLoop:
  assumes "\<forall>s. onlyMode s \<longrightarrow> onlyMode (snd (fn t s))" and "onlyMode s"
  shows "onlyMode (snd (retryLoop fn t N nm a lastE s))"
  using assms
proof (induction fn t N nm a lastE s rule: retryLoop.induct)
  case (1 fn t retries testName attempt lastError s)
  obtain r s1 where r: "fn t s = (r, s1)" by (cases "fn t s")
  with 1(3,4) have o1: "onlyMode s1" by (metis snd_conv)
  show ?case
  proof (cases "int attempt \<le> retries")
    case False
    then show ?thesis using 1(4) by (subst retryLoop.simps) simp
  next
    case le: True
    show ?thesis
    proof (cases r)
      case (Inr v)
      then show ?thesis using le r o1 by (subst retryLoop.simps) simp
    next
      case (Inl error)
      show ?thesis
      proof (cases "int attempt < retries")
        case lt: True
        show ?thesis
        proof (cases "getProp error ''message''")
          case (Inl typeError)
          then show ?thesis using le lt r \<open>r = Inl error\<close> o1
            by (subst retryLoop.simps) simp
        next
          case (Inr msg)
          have "onlyMode (snd (retryLoop fn t retries testName (Suc attempt) error
              (emit (ConsoleLog testName (attempt + 1) msg) s1)))"
            using 1(1) [OF le r [symmetric] \<open>r = Inl error\<close> lt Inr] 1(3) o1
            by (simp add: onlyMode_emit)
          then show ?thesis using le lt r \<open>r = Inl error\<close> Inr
            by (subst retryLoop.simps) simp
        qed
      next
        case nlt: False
        have "onlyMode (snd (retryLoop fn t retries testName (Suc attempt) error s1))"
          using 1(2) [OF le r [symmetric] \<open>r = Inl error\<close> nlt] 1(3) o1 by simp
        then show ?thesis using le nlt r \<open>r = Inl error\<close>
          by (subst retryLoop.simps) simp
      qed
    qed
  qed
qed

lemma keepsOnly_test_wrappedFn:
  assumes "\<forall>s. onlyMode s \<longrightarrow> onlyMode (snd (fn t s))" and "onlyMode s"
  shows "onlyMode (snd (test_wrappedFn nm fn t s))"
proof -
  let ?s1 = "setCurrentTestContext t s"
  have o: "onlyMode ?s1"
    using assms(2) by (simp add: setCurrentTestContext_def)
  show ?thesis
  proof (cases "0 < getCurrentRetryCount ?s1")
    case True
    then have "test_wrappedFn nm fn t s =
        retryLoop fn t (getCurrentRetryCount ?s1) nm 0 JUndefined ?s1"
      by (simp add: test_wrappedFn_def Let_def handleRetries_def)
    then show ?thesis
      using keepsOnly_retryLoop [where fn = fn and t = t and s = "?s1"] assms(1) o by simp
  next
    case False
    then have "test_wrappedFn nm fn t s = fn t ?s1"
      by (simp add: test_wrappedFn_def Let_def)
    then show ?thesis using assms(1) o by simp
  qed
qed

text \<open>
  C9: the only-mode flag is one boolean of the session, false when the shim is loaded.
  \<open>test.only\<close> and \<open>describe.only\<close> leave it true, whatever the host does with the suite;
  and no sequence of calls of the test and describe entry points, nested suite bodies
  included, leaves it false once it is true; nor does the wrapper under which the host runs
  a registered test, when the test body does not.
\<close>

theorem only_mode_sticky:
  fixes body cmds :: "'u cmd list"
  shows "\<not> onlyMode (initial u)
    \<and> onlyMode (snd (run_cmd h (CTestOnly nm f) s))
    \<and> onlyMode (snd (run_cmd h (CDescribeOnly nm body) s))
    \<and> (onlyMode s \<longrightarrow> onlyMode (snd (run_body h cmds s)))
    \<and> ((\<forall>s1. onlyMode s1 \<longrightarrow> onlyMode (snd (fn t s1))) \<longrightarrow> onlyMode s \<longrightarrow>
          onlyMode (snd (test_wrappedFn nm fn t s)))"
proof -
  have "keepsOnly (run_body h body)" and "keepsOnly (run_body h cmds)"
    by (rule keepsOnly_run)+
  then show ?thesis
    using keepsOnly_test_wrappedFn [of fn t s nm]
    by (simp add: initial_def onlyMode_test_only onlyMode_describe_only keepsOnly_def)
qed

theorem only_mode_sticky_witness:
  "onlyMode (snd (run_cmd nodeHost (CDescribeOnly ''A'' [CTest ''a'' (flaky [])]) (initial 0)))
   \<and> onlyMode (snd (run_body nodeHost
        [CDescribe ''B'' [CRetryTimes 1, CTestSkip ''b'' (flaky [])], CThrow (JStr ''boom'')]
        (snd (run_cmd nodeHost (CDescribeOnly ''A'' [CTest ''a'' (flaky [])]) (initial 0)))))"
proof -
  have first: "onlyMode (snd (run_cmd nodeHost (CDescribeOnly ''A'' [CTest ''a'' (flaky [])]) (initial 0)))"
    using only_mode_sticky [where h = nodeHost and s = "initial 0" and u = "0::nat"
        and f = "flaky []" and body = "[CTest ''a'' (flaky [])]" and nm = "''A''"
        and cmds = "[]" and fn = "flaky []" and t = JNull]
    by simp
  show ?thesis
    using first only_mode_sticky [where h = nodeHost and u = "0::nat" and f = "flaky []"
        and s = "snd (run_cmd nodeHost (CDescribeOnly ''A'' [CTest ''a'' (flaky [])]) (initial 0))"
        and cmds = "[CDescribe ''B'' [CRetryTimes 1, CTestSkip ''b'' (flaky [])], CThrow (JStr ''boom'')]"
        and body = "[CTest ''a'' (flaky [])]" and nm = "''A''" and fn = "flaky []" and t = JNull]
    by simp
qed

section \<open>Module mocks\<close>

lemma hasMockedModule_register:
  "hasMockedModule nm (snd (registerMockedModule nm c s))"
  by (simp add: hasMockedModule_def registerMockedModule_def dom_update)

lemma distinct_register:
  "distinct (map fst (mockedModules s)) \<Longrightarrow>
   distinct (map fst (mockedModules (snd (registerMockedModule nm c s))))"
  by (simp add: registerMockedModule_def distinct_update)

lemma mockModule_registers:
  "mockModule hostMock nm factory s = (Inr v, s1) \<Longrightarrow> hasMockedModule nm s1"
  by (auto simp: mockModule_def hasMockedModule_register
      split: if_splits prod.splits sum.splits option.splits)

text \<open>
  C5: for a module name that is in the mocked-modules map, \<open>mockModule\<close> returns
  \<open>undefined\<close> and leaves the session as it is, whatever the factory and the host's
  substitution primitive would do: neither runs, and the stored context stays. A call that
  returned normally has put the name in the map, so the next call for that name is such a
  call.
\<close>

theorem mockModule_again:
  "(hasMockedModule nm s \<longrightarrow> mockModule hostMock nm factory s = (Inr JUndefined, s))
   \<and> (mockModule hostMock1 nm factory1 s = (Inr v, s1) \<longrightarrow>
        mockModule hostMock nm factory s1 = (Inr JUndefined, s1))"
proof (intro conjI impI)
  assume "hasMockedModule nm s"
  then show "mockModule hostMock nm factory s = (Inr JUndefined, s)"
    by (simp add: mockModule_def)
next
  assume "mockModule hostMock1 nm factory1 s = (Inr v, s1)"
  then have "hasMockedModule nm s1" by (rule mockModule_registers)
  then show "mockModule hostMock nm factory s1 = (Inr JUndefined, s1)"
    by (simp add: mockModule_def)
qed

lemma fsMocked_eval:
  "mockModule (hostMockModule 10) ''fs'' (Some (returning fsExports)) (initial ()) =
     (Inr (JObj 10 [(''restore'', JFun 11 [])]), fsMocked)"
  "mockedModules fsMocked = [(''fs'', JObj 10 [(''restore'', JFun 11 [])])]"
  "trace fsMocked = [HostMockModule ''fs'' fsExports fsExports]"
  by (simp_all add: fsMocked_def mockModule_def hostMockModule_def returning_def fsExports_def
      hasMockedModule_def registerMockedModule_def initial_def emit_def)

theorem mockModule_again_witness:
  "hasMockedModule ''fs'' fsMocked
   \<and> mockModule (hostMockModule 20) ''fs'' (Some (run_body nodeHost [CThrow (JStr ''factory ran'')]))
        fsMocked = (Inr JUndefined, fsMocked)
   \<and> getMockedModule ''fs'' fsMocked = JObj 10 [(''restore'', JFun 11 [])]"
proof -
  have h: "hasMockedModule ''fs'' fsMocked"
    by (simp add: hasMockedModule_def fsMocked_eval)
  have g: "getMockedModule ''fs'' fsMocked = JObj 10 [(''restore'', JFun 11 [])]"
    by (simp add: getMockedModule_def fsMocked_eval)
  show ?thesis
    using h g mockModule_again [of "''fs''" fsMocked "hostMockModule 20"
        "Some (run_body nodeHost [CThrow (JStr ''factory ran'')])"]
    by blast
qed

lemma callMethod_ok:
  "getProp v m = Inr f \<Longrightarrow> isFunction f \<Longrightarrow>
   callMethod v m s = (Inr JUndefined, emit (MethodCall m v) s)"
  by (simp add: callMethod_def)

lemma getProp_truthy: "getProp v m = Inr f \<Longrightarrow> isFunction f \<Longrightarrow> truthy v"
  by (cases v) (auto split: if_splits)

lemma unmockModule_mocked:
  assumes "map_of (mockedModules s) nm = Some ctx"
    and "getProp ctx ''restore'' = Inr f" and "isFunction f"
  shows "unmockModule nm s =
    (Inr JUndefined, (emit (MethodCall ''restore'' ctx) s)\<lparr>mockedModules := AList.delete nm (mockedModules s)\<rparr>)"
  using assms getProp_truthy [OF assms(2,3)]
  by (simp add: unmockModule_def getMockedModule_def callMethod_ok emit_def)

lemma not_has_after_delete:
  "\<not> hasMockedModule nm (s\<lparr>mockedModules := AList.delete nm (mockedModules s)\<rparr>)"
  using delete_notin_dom [of nm "mockedModules s"] by (simp add: hasMockedModule_def)

text \<open>
  C6: for a module whose stored context has a \<open>restore\<close> method, \<open>unmockModule\<close> calls
  that method and then removes the entry from the map. After that the name is not in the
  map, a call of \<open>mockModule\<close> for it is not the no-op of an already mocked module, and
  with no factory given it hands the default exports to the host and stores the context the
  host returns.
\<close>

theorem unmock_then_mock:
  assumes "map_of (mockedModules s) nm = Some ctx"
    and "getProp ctx ''restore'' = Inr f" and "isFunction f"
  shows "unmockModule nm s =
      (Inr JUndefined,
       (emit (MethodCall ''restore'' ctx) s)\<lparr>mockedModules := AList.delete nm (mockedModules s)\<rparr>)
    \<and> \<not> hasMockedModule nm (snd (unmockModule nm s))
    \<and> mockModule hostMock nm factory (snd (unmockModule nm s)) \<noteq>
        (Inr JUndefined, snd (unmockModule nm s))
    \<and> mockModule hostMock nm None (snd (unmockModule nm s)) =
        (case hostMock nm (JObj 0 []) (JObj 0 []) (snd (unmockModule nm s)) of
           (Inl e, s2) \<Rightarrow> (Inl e, emit (ConsoleError nm e) s2)
         | (Inr c, s2) \<Rightarrow> (Inr c, snd (registerMockedModule nm c s2)))"
proof -
  let ?s' = "(emit (MethodCall ''restore'' ctx) s)\<lparr>mockedModules := AList.delete nm (mockedModules s)\<rparr>"
  have u: "unmockModule nm s = (Inr JUndefined, ?s')"
    using assms by (rule unmockModule_mocked)
  have "\<not> hasMockedModule nm ((emit (MethodCall ''restore'' ctx) s)
      \<lparr>mockedModules := AList.delete nm (mockedModules (emit (MethodCall ''restore'' ctx) s))\<rparr>)"
    by (rule not_has_after_delete)
  then have n: "\<not> hasMockedModule nm ?s'" by (simp add: emit_def)
  have ne: "mockModule hostMock nm factory ?s' \<noteq> (Inr JUndefined, ?s')"
    using n mockModule_registers [of hostMock nm factory ?s' JUndefined ?s'] by blast
  have fresh: "mockModule hostMock nm None ?s' =
        (case hostMock nm (JObj 0 []) (JObj 0 []) ?s' of
           (Inl e, s2) \<Rightarrow> (Inl e, emit (ConsoleError nm e) s2)
         | (Inr c, s2) \<Rightarrow> (Inr c, snd (registerMockedModule nm c s2)))"
    using n by (simp add: mockModule_def split: prod.splits sum.splits)
  show ?thesis
    unfolding u using n ne fresh by simp
qed

theorem unmock_then_mock_witness:
  "trace (snd (unmockModule ''fs'' fsMocked)) =
     [HostMockModule ''fs'' fsExports fsExports, MethodCall ''restore'' (JObj 10 [(''restore'', JFun 11 [])])]
   \<and> mockedModules (snd (unmockModule ''fs'' fsMocked)) = []
   \<and> fst (mockModule (hostMockModule 20) ''fs'' None (snd (unmockModule ''fs'' fsMocked))) =
       Inr (JObj 20 [(''restore'', JFun 21 [])])
   \<and> mockedModules (snd (mockModule (hostMockModule 20) ''fs'' None
        (snd (unmockModule ''fs'' fsMocked)))) = [(''fs'', JObj 20 [(''restore'', JFun 21 [])])]"
proof -
  have m: "map_of (mockedModules fsMocked) ''fs'' = Some (JObj 10 [(''restore'', JFun 11 [])])"
    by (simp add: fsMocked_eval)
  have g: "getProp (JObj 10 [(''restore'', JFun 11 [])]) ''restore'' = Inr (JFun 11 [])"
    by simp
  have i: "isFunction (JFun 11 [])" by simp
  have u: "unmockModule ''fs'' fsMocked =
      (Inr JUndefined,
       (emit (MethodCall ''restore'' (JObj 10 [(''restore'', JFun 11 [])])) fsMocked)
         \<lparr>mockedModules := AList.delete ''fs'' (mockedModules fsMocked)\<rparr>)"
    using unmock_then_mock [OF m g i, of "hostMockModule 20" None] by blast
  have fr: "mockModule (hostMockModule 20) ''fs'' None (snd (unmockModule ''fs'' fsMocked)) =
        (case hostMockModule 20 ''fs'' (JObj 0 []) (JObj 0 []) (snd (unmockModule ''fs'' fsMocked)) of
           (Inl e, s2) \<Rightarrow> (Inl e, emit (ConsoleError ''fs'' e) s2)
         | (Inr c, s2) \<Rightarrow> (Inr c, snd (registerMockedModule ''fs'' c s2)))"
    using unmock_then_mock [OF m g i, of "hostMockModule 20" None] by blast
  show ?thesis
    unfolding fr unfolding u
    by (simp add: fsMocked_eval emit_def hostMockModule_def registerMockedModule_def)
qed

section \<open>Mocks and spies\<close>

lemma forEachCall_defined:
  "\<forall>x \<in> set xs. \<not> nullish x \<Longrightarrow>
   forEachCall m xs s =
     (Inr JUndefined, s\<lparr>trace := trace s @ map (MethodCall m) (filter (\<lambda>x. hasMethod x m) xs)\<rparr>)"
proof (induction xs arbitrary: s)
  case Nil
  then show ?case by simp
next
  case (Cons x xs)
  then obtain f where f: "getProp x m = Inr f"
    using getProp_defined [of x m] by auto
  with Cons show ?case by (simp add: hasMethod_def emit_def)
qed

lemma spies_defined_registerSpy:
  assumes "\<not> nullish spy" and "\<forall>x \<in> set (map fst (spiedFunctions s)). \<not> nullish x"
  shows "\<forall>x \<in> set (map fst (spiedFunctions (snd (registerSpy spy obj mname orig atype s)))).
           \<not> nullish x"
  using assms by (auto simp: registerSpy_def dom_update)

text \<open>
  C7: when every tracked spy is a value whose properties can be read (the spies that
  \<open>spyOn\<close> returns are functions), \<open>restoreAllMocks\<close> calls \<open>mockRestore\<close> on each
  tracked spy that has it, in insertion order, empties the spy map and leaves the set of
  created mocks as it is; a second call right after it calls nothing, changes nothing and
  returns normally.
\<close>

theorem restoreAllMocks_twice:
  assumes "\<forall>spy \<in> set (map fst (spiedFunctions s)). \<not> nullish spy"
  shows "restoreAllMocks s =
           (Inr JUndefined,
            s\<lparr>trace := trace s @ map (MethodCall ''mockRestore'')
                  (filter (\<lambda>spy. hasMethod spy ''mockRestore'') (map fst (spiedFunctions s))),
              spiedFunctions := []\<rparr>)
         \<and> createdMocks (snd (restoreAllMocks s)) = createdMocks s
         \<and> restoreAllMocks (snd (restoreAllMocks s)) = (Inr JUndefined, snd (restoreAllMocks s))"
proof -
  have first: "restoreAllMocks s =
           (Inr JUndefined,
            s\<lparr>trace := trace s @ map (MethodCall ''mockRestore'')
                  (filter (\<lambda>spy. hasMethod spy ''mockRestore'') (map fst (spiedFunctions s))),
              spiedFunctions := []\<rparr>)"
    using forEachCall_defined [OF assms, of "''mockRestore''" s]
    by (simp add: restoreAllMocks_def)
  have second: "restoreAllMocks s1 = (Inr JUndefined, s1)"
    if "spiedFunctions s1 = []" for s1 :: "'a session"
    using that by (simp add: restoreAllMocks_def)
  show ?thesis
    using first second [of "snd (restoreAllMocks s)"] by simp
qed

lemma twoSpies_eval:
  "map fst (spiedFunctions twoSpies) = [mockFn 3, JFun 9 []]"
  "createdMocks twoSpies = [mockFn 3, JFun 9 []]"
  "trace twoSpies = []"
  by (simp_all add: twoSpies_def registerSpy_def initial_def set_add_def mockFn_def)

theorem restoreAllMocks_twice_witness:
  "fst (restoreAllMocks twoSpies) = Inr JUndefined
   \<and> trace (snd (restoreAllMocks twoSpies)) = [MethodCall ''mockRestore'' (mockFn 3)]
   \<and> spiedFunctions (snd (restoreAllMocks twoSpies)) = []
   \<and> createdMocks (snd (restoreAllMocks twoSpies)) = [mockFn 3, JFun 9 []]
   \<and> restoreAllMocks (snd (restoreAllMocks twoSpies)) =
       (Inr JUndefined, snd (restoreAllMocks twoSpies))"
proof -
  have a: "\<forall>spy \<in> set (map fst (spiedFunctions twoSpies)). \<not> nullish spy"
    by (simp add: twoSpies_eval mockFn_def)
  note twice = restoreAllMocks_twice [OF a]
  have h: "hasMethod (mockFn 3) ''mockRestore''" "\<not> hasMethod (JFun 9 []) ''mockRestore''"
    by (simp_all add: hasMethod_def mockFn_def)
  have calls: "map (MethodCall ''mockRestore'')
      (filter (\<lambda>spy. hasMethod spy ''mockRestore'') (map fst (spiedFunctions twoSpies))) =
      [MethodCall ''mockRestore'' (mockFn 3)]"
    by (simp add: twoSpies_eval h)
  have first: "restoreAllMocks twoSpies =
      (Inr JUndefined,
       twoSpies\<lparr>trace := trace twoSpies @ [MethodCall ''mockRestore'' (mockFn 3)],
         spiedFunctions := []\<rparr>)"
    using twice [THEN conjunct1] by (simp only: calls)
  have created: "createdMocks (snd (restoreAllMocks twoSpies)) = createdMocks twoSpies"
    using twice by (elim conjE)
  have second: "restoreAllMocks (snd (restoreAllMocks twoSpies)) =
      (Inr JUndefined, snd (restoreAllMocks twoSpies))"
    using twice by (elim conjE)
  show ?thesis
  proof (intro conjI)
    show "fst (restoreAllMocks twoSpies) = Inr JUndefined"
      by (simp only: first fst_conv)
    show "trace (snd (restoreAllMocks twoSpies)) = [MethodCall ''mockRestore'' (mockFn 3)]"
      by (simp add: first twoSpies_eval)
    show "spiedFunctions (snd (restoreAllMocks twoSpies)) = []"
      by (simp add: first)
    show "createdMocks (snd (restoreAllMocks twoSpies)) = [mockFn 3, JFun 9 []]"
      by (simp only: created twoSpies_eval)
    show "restoreAllMocks (snd (restoreAllMocks twoSpies)) =
        (Inr JUndefined, snd (restoreAllMocks twoSpies))"
      by (rule second)
  qed
qed

lemma isMockFunction_truthy:
  "truthy v \<Longrightarrow> \<exists>m. getProp v ''_isMockFunction'' = Inr m \<and> isMockFunction v = Inr (JBool (truthy m))"
  by (cases v) (simp_all add: isMockFunction_def)

lemma isMockFunction_falsy: "\<not> truthy v \<Longrightarrow> isMockFunction v = Inr v"
  by (simp add: isMockFunction_def)

text \<open>
  C8 at falsy arguments: \<open>isMockFunction\<close> returns its argument, which is \<open>null\<close>,
  \<open>undefined\<close>, \<open>0\<close> or the empty string, where the specification and the function's
  own documentation (\<open>@returns True if the function is a mock, false otherwise\<close>, declared
  \<open>boolean\<close>) say \<open>false\<close>.
\<close>

theorem isMockFunction_not_boolean:
  "isMockFunction JNull = Inr JNull \<and> isMockFunction JUndefined = Inr JUndefined \<and>
   isMockFunction (JNum 0) = Inr (JNum 0) \<and> isMockFunction (JStr []) = Inr (JStr [])"
  by (simp add: isMockFunction_def)

section \<open>When the retry budget is read\<close>

lemma withRetries_registration:
  "withRetries testFn nm (AFun f) fn s =
     testFn nm (AObj []) (Some (withRetries_wrappedFn f (getCurrentRetryCount s) nm)) s"
  by (simp add: withRetries_def)

lemma test_wrappedFn_reads_late:
  "test_wrappedFn nm f t s =
     (if getCurrentRetryCount s > 0
      then handleRetries t f (getCurrentRetryCount s) nm (setCurrentTestContext t s)
      else f t (setCurrentTestContext t s))"
  by (simp add: test_wrappedFn_def Let_def getCurrentRetryCount_def setCurrentTestContext_def)

text \<open>
  C2 on a suite that sets two retries, registers a test that fails once, and sets the count
  back to zero for what follows: the budget at the moment of registration is 2, under
  which the test passes on its second attempt (as the wrapper of \<open>withRetries\<close>, which
  captures the count at registration, shows); the wrapper of the test function reads the
  count when the host runs the test, finds 0, runs the body once and fails.
\<close>

theorem retry_budget_read_late:
  "getCurrentRetryCount (snd (run_body nodeHost [CRetryTimes 2] (pushDescribeBlock ''A'' (initial 0)))) = 2
   \<and> getCurrentRetryCount (snd (run_body nodeHost
        [CDescribe ''A'' [CRetryTimes 2, CTest ''t'' (flaky [errorObj 1 ''first'']), CRetryTimes 0]]
        (initial 0))) = 0
   \<and> fst (test_wrappedFn ''t'' (flaky [errorObj 1 ''first'']) JNull
        (snd (run_body nodeHost
          [CDescribe ''A'' [CRetryTimes 2, CTest ''t'' (flaky [errorObj 1 ''first'']), CRetryTimes 0]]
          (initial 0)))) = Inl (errorObj 1 ''first'')
   \<and> user (snd (test_wrappedFn ''t'' (flaky [errorObj 1 ''first'']) JNull
        (snd (run_body nodeHost
          [CDescribe ''A'' [CRetryTimes 2, CTest ''t'' (flaky [errorObj 1 ''first'']), CRetryTimes 0]]
          (initial 0))))) = 1
   \<and> fst (withRetries_wrappedFn (flaky [errorObj 1 ''first'']) 2 ''t'' JNull
        (snd (run_body nodeHost
          [CDescribe ''A'' [CRetryTimes 2, CTest ''t'' (flaky [errorObj 1 ''first'']), CRetryTimes 0]]
          (initial 0)))) = Inr JUndefined"
  by (simp add: retryTimes_def testFunction_def nodeTest_def describeFunction_def nodeDescribe_def
      describe_wrappedFn_def nodeHost_def pushDescribeBlock_def popDescribeBlock_def
      setGlobalRetryCount_def getCurrentRetryCount_def initial_def emit_def Let_def
      test_wrappedFn_def setCurrentTestContext_def flaky_def errorObj_def
      withRetries_wrappedFn_def retryLoop.simps)

end
